theory Spec2Isabelle
  imports Main
begin

section \<open>Data model\<close>

text \<open>
  The development embeds \<^verbatim>\<open>src/server/sockets/handlers/gameHandler.ts\<close>: the seven
  socket event handlers of the cube racing server. The handlers work on two process-wide
  arrays, \<^verbatim>\<open>deps['players']\<close> and \<^verbatim>\<open>deps['rooms']\<close>, that hold references to
  \<^verbatim>\<open>Player\<close> and \<^verbatim>\<open>Room\<close> objects. The same object can be referenced from several
  places (a Player from the registry and from a room's occupant list, a Room from several
  directory slots), so objects live in an explicit store: a list indexed by address, with
  \<^verbatim>\<open>new\<close> appending to it. A reference is the index.
\<close>

text \<open>
  Modelled from the spec: the enum \<^verbatim>\<open>RoomState\<close> of \<^verbatim>\<open>types/RoomState.ts\<close>. The
  handlers name only \<^verbatim>\<open>GAME_NOT_STARTED\<close>; the other two phases are those of the
  spec's room state machine.
\<close>

datatype RoomState = GAME_NOT_STARTED | GAME_IN_PROGRESS | GAME_FINISHED

text \<open>
  Modelled from the spec: the fields of the class \<^verbatim>\<open>Player\<close> of \<^verbatim>\<open>types/player.ts\<close>.
  The handlers read \<^verbatim>\<open>id\<close> and write \<^verbatim>\<open>status\<close>, \<^verbatim>\<open>solveTime\<close> and \<^verbatim>\<open>isDNF\<close>;
  \<^verbatim>\<open>username\<close> is the constructor's second argument. The field \<^verbatim>\<open>id\<close> is named
  \<open>id_player\<close> here. \<^verbatim>\<open>solveTime\<close> is a JavaScript number; only the constant 0 and an
  opaque measured time are ever stored in it, so an integer stands for it.
\<close>

record Player =
  id_player :: string
  username :: string
  status :: RoomState
  solveTime :: int
  isDNF :: bool

text \<open>
  Modelled from the spec: the fields of the class \<^verbatim>\<open>Room\<close> of \<^verbatim>\<open>server/room.ts\<close>.
  The handlers read \<^verbatim>\<open>roomID\<close>, \<^verbatim>\<open>players\<close>, \<^verbatim>\<open>roomStatus\<close> and
  \<^verbatim>\<open>getMaxPlayerCount()\<close>; the rematch acceptance set is the one of the spec's data
  model. \<open>players\<close> holds references to Player objects, in join order.
\<close>

record Room =
  roomID :: string
  players :: "nat list"
  roomStatus :: RoomState
  maxPlayerCount :: int
  rematchAccepted :: "string list"

text \<open>
  What a handler sends. \<^verbatim>\<open>io.to(x).emit(e)\<close> addresses the channel named \<open>x\<close> (a socket
  is always a member of the channel named by its own id); \<^verbatim>\<open>socket.emit(e)\<close> addresses
  the socket itself. \<^verbatim>\<open>console.log\<close> is not modelled. The last three events are the
  room broadcasts of the spec, whose wire names are not in the handler file.
\<close>

datatype outbound =
    Join_invalid
  | Player_initialized string
  | Room_found string
  | Game_started
  | Keyboard_input string string
  | Solve_completed string

datatype emit = Io_to string outbound | Socket_emit string outbound

text \<open>
  The process state: the two object stores, the two global arrays of references, the
  channel membership kept by \<^verbatim>\<open>socket.join\<close> and \<^verbatim>\<open>socket.leave\<close> (pairs of socket id
  and channel name), and the values that the coming calls of \<^verbatim>\<open>genRanHex(5)\<close> will
  return, in order.
\<close>

record State =
  player_objs :: "Player list"
  room_objs :: "Room list"
  deps_players :: "nat list"
  deps_rooms :: "nat list"
  channels :: "(string \<times> string) set"
  draws :: "string list"

definition init_state :: "string list \<Rightarrow> State" where
  "init_state ds =
     \<lparr>player_objs = [], room_objs = [], deps_players = [], deps_rooms = [],
      channels = {}, draws = ds\<rparr>"

section \<open>Lookups over the global arrays\<close>

text \<open>\<^verbatim>\<open>deps['players'].find((p) => p.id === socket.id)\<close>\<close>

definition find_player :: "State \<Rightarrow> string \<Rightarrow> nat option" where
  "find_player st sid =
     List.find (\<lambda>p. id_player (player_objs st ! p) = sid) (deps_players st)"

text \<open>\<^verbatim>\<open>r.players.some((p) => p.id === sid)\<close>\<close>

definition has_occupant :: "State \<Rightarrow> nat \<Rightarrow> string \<Rightarrow> bool" where
  "has_occupant st r sid =
     (\<exists>p \<in> set (players (room_objs st ! r)). id_player (player_objs st ! p) = sid)"

text \<open>\<^verbatim>\<open>deps['rooms'].find((r) => r.players.some((p) => p.id === sid))\<close>\<close>

definition find_room_of :: "State \<Rightarrow> string \<Rightarrow> nat option" where
  "find_room_of st sid = List.find (\<lambda>r. has_occupant st r sid) (deps_rooms st)"

text \<open>\<^verbatim>\<open>deps['rooms'].find((r) => r.roomID === roomID)\<close>\<close>

definition find_room_by_id :: "State \<Rightarrow> string \<Rightarrow> nat option" where
  "find_room_by_id st rid =
     List.find (\<lambda>r. roomID (room_objs st ! r) = rid) (deps_rooms st)"

text \<open>
  \<^verbatim>\<open>r.players.length <= r.getMaxPlayerCount() - 1 && r.roomStatus == RoomState.GAME_NOT_STARTED\<close>,
  over the integers, as the subtraction may go below zero.
\<close>

definition joinable :: "Room \<Rightarrow> bool" where
  "joinable r \<longleftrightarrow>
     int (length (players r)) \<le> maxPlayerCount r - 1 \<and> roomStatus r = GAME_NOT_STARTED"

definition find_joinable :: "State \<Rightarrow> nat option" where
  "find_joinable st = List.find (\<lambda>r. joinable (room_objs st ! r)) (deps_rooms st)"

section \<open>Collaborators outside the handler file\<close>

text \<open>
  Modelled from the spec: the constructor of \<^verbatim>\<open>Player\<close> (\<^verbatim>\<open>types/player.ts\<close>), which
  is not in the handler file. A new Player has not started, has solve time 0 and is not
  DNF.
\<close>

definition new_Player :: "string \<Rightarrow> string \<Rightarrow> Player" where
  "new_Player sid name =
     \<lparr>id_player = sid, username = name, status = GAME_NOT_STARTED, solveTime = 0,
      isDNF = False\<rparr>"

text \<open>
  Modelled from the spec: the constructor of \<^verbatim>\<open>Room\<close> (\<^verbatim>\<open>server/room.ts\<close>). A new
  Room is empty and not started. Its capacity is a constant of the missing class and is
  the parameter \<open>cap\<close> throughout.
\<close>

definition new_Room :: "int \<Rightarrow> string \<Rightarrow> Room" where
  "new_Room cap rid =
     \<lparr>roomID = rid, players = [], roomStatus = GAME_NOT_STARTED, maxPlayerCount = cap,
      rematchAccepted = []\<rparr>"

text \<open>
  Modelled from the spec: \<^verbatim>\<open>Room.processRematchRequest(connectionID)\<close>, which adds the
  id to the room's rematch acceptance set and returns true iff every current occupant is
  in that set.
\<close>

definition processRematchRequest :: "State \<Rightarrow> nat \<Rightarrow> string \<Rightarrow> State \<times> bool" where
  "processRematchRequest st r sid =
     (let room = room_objs st ! r;
          acc = List.insert sid (rematchAccepted room)
      in (st\<lparr>room_objs := (room_objs st)[r := room\<lparr>rematchAccepted := acc\<rparr>]\<rparr>,
          \<forall>p \<in> set (players room). id_player (player_objs st ! p) \<in> set acc))"

text \<open>
  Modelled from the spec: \<^verbatim>\<open>Room.removePlayer(connectionID)\<close>, which removes the
  occupant with that id from the occupant list.
\<close>

definition removePlayer :: "State \<Rightarrow> nat \<Rightarrow> string \<Rightarrow> State" where
  "removePlayer st r pid =
     (let room = room_objs st ! r
      in st\<lparr>room_objs := (room_objs st)
            [r := room\<lparr>players :=
                 filter (\<lambda>p. id_player (player_objs st ! p) \<noteq> pid) (players room)\<rparr>]\<rparr>)"

text \<open>
  Modelled from the spec: \<^verbatim>\<open>Room.addPlayer(connection, player)\<close>, which appends the
  Player to the occupant list and validates neither capacity nor phase.
\<close>

definition addPlayer :: "State \<Rightarrow> nat \<Rightarrow> nat \<Rightarrow> State" where
  "addPlayer st r player =
     (let room = room_objs st ! r
      in st\<lparr>room_objs := (room_objs st)[r := room\<lparr>players := players room @ [player]\<rparr>]\<rparr>)"

text \<open>
  Modelled from the spec: \<^verbatim>\<open>Room.startGame()\<close>, which moves the room to
  \<open>GAME_IN_PROGRESS\<close> and broadcasts the scramble on the room's channel if and only if
  the occupant count equals the capacity, and does nothing otherwise.
\<close>

definition startGame :: "State \<Rightarrow> nat \<Rightarrow> State \<times> emit list" where
  "startGame st r =
     (let room = room_objs st ! r
      in if int (length (players room)) = maxPlayerCount room
         then (st\<lparr>room_objs := (room_objs st)[r := room\<lparr>roomStatus := GAME_IN_PROGRESS\<rparr>]\<rparr>,
               [Io_to (roomID room) Game_started])
         else (st, []))"

text \<open>
  Modelled from the spec: \<^verbatim>\<open>Room.handleInput(connectionID, key)\<close>, which forwards the
  keystroke, tagged with its origin, to the room's occupants.
\<close>

definition handleInput :: "State \<Rightarrow> nat \<Rightarrow> string \<Rightarrow> string \<Rightarrow> State \<times> emit list" where
  "handleInput st r senderID key =
     (st, [Io_to (roomID (room_objs st ! r)) (Keyboard_input senderID key)])"

text \<open>
  The occupant of room \<open>r\<close> with a given id, as \<^verbatim>\<open>this.players.find\<close> gives it, and
  an update of that one Player object in the store.
\<close>

definition occupant :: "State \<Rightarrow> nat \<Rightarrow> string \<Rightarrow> nat option" where
  "occupant st r pid =
     List.find (\<lambda>p. id_player (player_objs st ! p) = pid) (players (room_objs st ! r))"

definition update_player :: "State \<Rightarrow> nat \<Rightarrow> (Player \<Rightarrow> Player) \<Rightarrow> State" where
  "update_player st p f = st\<lparr>player_objs := (player_objs st)[p := f (player_objs st ! p)]\<rparr>"

text \<open>
  Modelled from the spec: \<^verbatim>\<open>Room.playerSolveComplete(connectionID)\<close>, which records
  the finishing result of that occupant (time, DNF false) and broadcasts the completion.
  The time is measured inside the missing class; it is the parameter \<open>t\<close>.
\<close>

definition playerSolveComplete :: "State \<Rightarrow> nat \<Rightarrow> string \<Rightarrow> int \<Rightarrow> State \<times> emit list" where
  "playerSolveComplete st r pid t =
     ((case occupant st r pid of
         None \<Rightarrow> st
       | Some p \<Rightarrow> update_player st p (\<lambda>pl. pl\<lparr>solveTime := t, isDNF := False\<rparr>)),
      [Io_to (roomID (room_objs st ! r)) (Solve_completed pid)])"

text \<open>
  Modelled from the spec: \<^verbatim>\<open>Room.playerDNF(connectionID)\<close>, which marks the occupant
  as not finished and does not remove it from the occupant list.
\<close>

definition playerDNF :: "State \<Rightarrow> nat \<Rightarrow> string \<Rightarrow> State" where
  "playerDNF st r pid =
     (case occupant st r pid of
        None \<Rightarrow> st
      | Some p \<Rightarrow> update_player st p (\<lambda>pl. pl\<lparr>isDNF := True\<rparr>))"

text \<open>\<^verbatim>\<open>socket.join(name)\<close> and \<^verbatim>\<open>socket.leave(name)\<close> of socket.io.\<close>

definition socket_join :: "State \<Rightarrow> string \<Rightarrow> string \<Rightarrow> State" where
  "socket_join st sid name = st\<lparr>channels := insert (sid, name) (channels st)\<rparr>"

definition socket_leave :: "State \<Rightarrow> string \<Rightarrow> string \<Rightarrow> State" where
  "socket_leave st sid name = st\<lparr>channels := channels st - {(sid, name)}\<rparr>"

section \<open>The handlers\<close>

text \<open>
  \<^verbatim>\<open>initializePlayer(username)\<close>. \<open>sid\<close> is \<^verbatim>\<open>socket.id\<close> of the connection the
  handler was installed for. The branch \<^verbatim>\<open>if (!player)\<close> after \<^verbatim>\<open>new Player\<close> cannot
  be taken (an object is never falsy) and has no counterpart.
\<close>

definition initializePlayer :: "State \<Rightarrow> string \<Rightarrow> string \<Rightarrow> State \<times> emit list" where
  "initializePlayer st sid name =
     (if \<exists>p \<in> set (deps_players st). id_player (player_objs st ! p) = sid then (st, [])
      else
        let name' = (if name = [] then ''an unnamed cuber'' else name);
            player = new_Player sid name'
        in (st\<lparr>player_objs := player_objs st @ [player],
                deps_players := deps_players st @ [length (player_objs st)]\<rparr>,
            [Socket_emit sid (Player_initialized sid)]))"

text \<open>
  The loop \<^verbatim>\<open>let newRoomID = genRanHex(5); while (deps['rooms'].some(r => r.roomID === newRoomID)) newRoomID = genRanHex(5);\<close>
  over the coming values of the generator. It has no bound of its own: when every value
  supplied collides, the model has no result (\<open>None\<close>).
\<close>

fun genFreshID :: "string list \<Rightarrow> string list \<Rightarrow> (string \<times> string list) option" where
  "genFreshID ids [] = None"
| "genFreshID ids (d # ds) = (if d \<in> set ids then genFreshID ids ds else Some (d, ds))"

text \<open>
  Lines 58 to 71 of \<^verbatim>\<open>joinRandomRoom\<close>, which lines 101 to 114 of
  \<^verbatim>\<open>joinRematchRoom\<close> repeat word for word: take the first joinable room of the
  directory or create one under a fresh id, then push it onto the directory in both cases.
  The result is the new state and the reference of the chosen room.
\<close>

definition ensureJoinableRoom :: "int \<Rightarrow> State \<Rightarrow> (State \<times> nat) option" where
  "ensureJoinableRoom cap st =
     (case find_joinable st of
        Some room \<Rightarrow> Some (st\<lparr>deps_rooms := deps_rooms st @ [room]\<rparr>, room)
      | None \<Rightarrow>
          (case genFreshID (map (\<lambda>r. roomID (room_objs st ! r)) (deps_rooms st)) (draws st) of
             None \<Rightarrow> None
           | Some (newRoomID, ds) \<Rightarrow>
               Some (st\<lparr>room_objs := room_objs st @ [new_Room cap newRoomID],
                        deps_rooms := deps_rooms st @ [length (room_objs st)],
                        draws := ds\<rparr>,
                     length (room_objs st))))"

text \<open>\<^verbatim>\<open>joinRandomRoom()\<close>\<close>

definition joinRandomRoom :: "int \<Rightarrow> State \<Rightarrow> string \<Rightarrow> (State \<times> emit list) option" where
  "joinRandomRoom cap st sid =
     (case find_player st sid of
        None \<Rightarrow> Some (st, [Io_to sid Join_invalid])
      | Some player \<Rightarrow>
          (case ensureJoinableRoom cap st of
             None \<Rightarrow> None
           | Some (st', room) \<Rightarrow>
               Some (st', [Io_to sid (Room_found (roomID (room_objs st' ! room)))])))"

text \<open>\<^verbatim>\<open>joinRematchRoom()\<close>\<close>

definition joinRematchRoom :: "int \<Rightarrow> State \<Rightarrow> string \<Rightarrow> (State \<times> emit list) option" where
  "joinRematchRoom cap st sid =
     (case find_player st sid of
        None \<Rightarrow> Some (st, [Io_to sid Join_invalid])
      | Some player \<Rightarrow>
          (case find_room_of st sid of
             None \<Rightarrow> Some (st, [Io_to sid Join_invalid])
           | Some room \<Rightarrow>
               (case processRematchRequest st room sid of
                  (st1, allPlayersAccepted) \<Rightarrow>
                    if allPlayersAccepted then
                      (case ensureJoinableRoom cap st1 of
                         None \<Rightarrow> None
                       | Some (st2, newRoom) \<Rightarrow>
                           Some (st2, [Io_to (roomID (room_objs st2 ! room))
                                         (Room_found (roomID (room_objs st2 ! newRoom)))]))
                    else Some (st1, []))))"

text \<open>
  The block \<^verbatim>\<open>if (currentRoom) { ... }\<close> of \<^verbatim>\<open>roomJoined\<close>: remove the player from the
  room, leave its channel, reset the three fields of the Player object.
\<close>

definition evict :: "State \<Rightarrow> string \<Rightarrow> nat \<Rightarrow> nat \<Rightarrow> State" where
  "evict st sid player currentRoom =
     (let st1 = removePlayer st currentRoom (id_player (player_objs st ! player));
          st2 = socket_leave st1 sid (roomID (room_objs st1 ! currentRoom))
      in update_player st2 player
           (\<lambda>pl. pl\<lparr>status := GAME_NOT_STARTED, solveTime := 0, isDNF := False\<rparr>))"

text \<open>\<^verbatim>\<open>roomJoined(roomID)\<close>\<close>

definition roomJoined :: "State \<Rightarrow> string \<Rightarrow> string \<Rightarrow> State \<times> emit list" where
  "roomJoined st sid rid =
     (case find_player st sid of
        None \<Rightarrow> (st, [Io_to sid Join_invalid])
      | Some player \<Rightarrow>
          (case find_room_by_id st rid of
             None \<Rightarrow> (st, [Io_to sid Join_invalid])
           | Some room \<Rightarrow>
               let st1 = (case find_room_of st sid of
                            None \<Rightarrow> st
                          | Some currentRoom \<Rightarrow> evict st sid player currentRoom);
                   st2 = socket_join st1 sid (roomID (room_objs st1 ! room));
                   st3 = addPlayer st2 room player
               in startGame st3 room))"

text \<open>\<^verbatim>\<open>handleKeyboardInput(senderID, key)\<close>\<close>

definition handleKeyboardInput ::
  "State \<Rightarrow> string \<Rightarrow> string \<Rightarrow> string \<Rightarrow> State \<times> emit list" where
  "handleKeyboardInput st sid senderID key =
     (case find_room_of st senderID of
        None \<Rightarrow> (st, [Io_to sid Join_invalid])
      | Some room \<Rightarrow> handleInput st room senderID key)"

text \<open>
  \<^verbatim>\<open>handleSolveComplete(socketID)\<close>; \<open>t\<close> is the time that the room records (see
  \<open>playerSolveComplete\<close>).
\<close>

definition handleSolveComplete ::
  "State \<Rightarrow> string \<Rightarrow> string \<Rightarrow> int \<Rightarrow> State \<times> emit list" where
  "handleSolveComplete st sid socketID t =
     (case find_room_of st sid of
        None \<Rightarrow> (st, [])
      | Some room \<Rightarrow>
          if sid = socketID then playerSolveComplete st room socketID t else (st, []))"

text \<open>\<^verbatim>\<open>disconnectPlayer()\<close>\<close>

definition disconnectPlayer :: "State \<Rightarrow> string \<Rightarrow> State \<times> emit list" where
  "disconnectPlayer st sid =
     (case find_player st sid of
        None \<Rightarrow> (st, [Io_to sid Join_invalid])
      | Some player \<Rightarrow>
          (case find_room_of st sid of
             None \<Rightarrow> (st, [])
           | Some room \<Rightarrow> (playerDNF st room (id_player (player_objs st ! player)), [])))"

section \<open>Event dispatch and reachable states\<close>

text \<open>
  The listeners installed by \<^verbatim>\<open>initializeGameHandlers\<close>, one constructor per
  \<^verbatim>\<open>socket.on\<close>. An event is processed to completion before the next one.
\<close>

datatype inbound =
    Initialize string
  | Join_random
  | Join_rematch
  | Joined string
  | Input string string
  | Completed_solve string int
  | Disconnect

fun dispatch :: "int \<Rightarrow> State \<Rightarrow> string \<Rightarrow> inbound \<Rightarrow> (State \<times> emit list) option" where
  "dispatch cap st sid (Initialize name) = Some (initializePlayer st sid name)"
| "dispatch cap st sid Join_random = joinRandomRoom cap st sid"
| "dispatch cap st sid Join_rematch = joinRematchRoom cap st sid"
| "dispatch cap st sid (Joined rid) = Some (roomJoined st sid rid)"
| "dispatch cap st sid (Input senderID key) = Some (handleKeyboardInput st sid senderID key)"
| "dispatch cap st sid (Completed_solve socketID t) = Some (handleSolveComplete st sid socketID t)"
| "dispatch cap st sid Disconnect = Some (disconnectPlayer st sid)"

text \<open>
  The states of the process: it starts with both arrays empty, and every event of every
  connection that is processed to completion leads to another one.
\<close>

inductive reachable :: "int \<Rightarrow> State \<Rightarrow> bool" for cap :: int where
  reachable_init: "reachable cap (init_state ds)"
| reachable_step:
    "reachable cap st \<Longrightarrow> dispatch cap st sid ev = Some (st', out) \<Longrightarrow> reachable cap st'"

text \<open>Running a finite trace of events from a state, for concrete scenarios.\<close>

fun run :: "int \<Rightarrow> State \<Rightarrow> (string \<times> inbound) list \<Rightarrow> State option" where
  "run cap st [] = Some st"
| "run cap st ((sid, ev) # evs) =
     (case dispatch cap st sid ev of
        None \<Rightarrow> None
      | Some (st', out) \<Rightarrow> run cap st' evs)"

section \<open>State invariants\<close>

text \<open>
  No reference dangles: every registry entry is an address of the Player store, every
  directory entry is an address of the Room store whose occupants are Players of the
  registry, and no two registry entries carry the same connection id.
\<close>

definition refs_ok :: "State \<Rightarrow> bool" where
  "refs_ok st \<longleftrightarrow>
     (\<forall>p \<in> set (deps_players st). p < length (player_objs st)) \<and>
     (\<forall>r \<in> set (deps_rooms st). r < length (room_objs st) \<and>
        set (players (room_objs st ! r)) \<subseteq> set (deps_players st)) \<and>
     distinct (map (\<lambda>p. id_player (player_objs st ! p)) (deps_players st))"

text \<open>
  A connection id occurs in the occupant list of at most one Room object of the directory
  (a Room object may sit in several directory slots).
\<close>

definition one_room :: "State \<Rightarrow> bool" where
  "one_room st \<longleftrightarrow>
     (\<forall>r1 \<in> set (deps_rooms st). \<forall>r2 \<in> set (deps_rooms st).
        \<forall>p1 \<in> set (players (room_objs st ! r1)). \<forall>p2 \<in> set (players (room_objs st ! r2)).
          id_player (player_objs st ! p1) = id_player (player_objs st ! p2) \<longrightarrow> r1 = r2)"

text \<open>The two together.\<close>

definition state_inv :: "State \<Rightarrow> bool" where
  "state_inv st \<longleftrightarrow> refs_ok st \<and> one_room st"

text \<open>The state of \<^verbatim>\<open>roomJoined\<close> after its eviction block, whether or not it ran.\<close>

definition evicted :: "State \<Rightarrow> string \<Rightarrow> nat \<Rightarrow> State" where
  "evicted st sid player =
     (case find_room_of st sid of None \<Rightarrow> st | Some c \<Rightarrow> evict st sid player c)"

section \<open>Concrete scenarios\<close>

text \<open>One connection, \<open>s1\<close>, has sent \<^verbatim>\<open>player:initialize\<close>.\<close>

definition ex_registered :: State where
  "ex_registered = fst (initializePlayer (init_state [''a1b2c'', ''0f3e9'']) ''s1'' ''ann'')"

text \<open>
  The same connection has then sent \<^verbatim>\<open>room:join_random\<close> and confirmed the room it
  was given with \<^verbatim>\<open>room:joined\<close>, in a deployment whose rooms hold two players.
\<close>

definition ex_trace :: "(string \<times> inbound) list" where
  "ex_trace = [(''s1'', Initialize ''ann''), (''s1'', Join_random), (''s1'', Joined ''a1b2c'')]"

definition ex_in_room :: State where
  "ex_in_room =
     \<lparr>player_objs = [new_Player ''s1'' ''ann''],
      room_objs = [(new_Room 2 ''a1b2c'')\<lparr>players := [0]\<rparr>],
      deps_players = [0], deps_rooms = [0], channels = {(''s1'', ''a1b2c'')},
      draws = [''0f3e9'']\<rparr>"

text \<open>
  Two connections in a room of two: \<open>s1\<close> and \<open>s2\<close> have initialized, \<open>s1\<close> has
  asked for a random room and both have confirmed it, which started the game.
\<close>

definition ex_race_trace :: "(string \<times> inbound) list" where
  "ex_race_trace =
     [(''s1'', Initialize ''ann''), (''s2'', Initialize ''bob''), (''s1'', Join_random),
      (''s1'', Joined ''a1b2c''), (''s2'', Joined ''a1b2c'')]"

definition ex_race :: State where
  "ex_race =
     \<lparr>player_objs = [new_Player ''s1'' ''ann'', new_Player ''s2'' ''bob''],
      room_objs = [(new_Room 2 ''a1b2c'')\<lparr>players := [0, 1], roomStatus := GAME_IN_PROGRESS\<rparr>],
      deps_players = [0, 1], deps_rooms = [0],
      channels = {(''s1'', ''a1b2c''), (''s2'', ''a1b2c'')},
      draws = [''0f3e9'']\<rparr>"

text \<open>Then \<open>s1\<close> has asked for a rematch.\<close>

definition ex_voted :: State where
  "ex_voted = ex_race\<lparr>room_objs :=
     [(new_Room 2 ''a1b2c'')\<lparr>players := [0, 1], roomStatus := GAME_IN_PROGRESS,
        rematchAccepted := [''s1'']\<rparr>]\<rparr>"


definition ex_gone :: State where
  "ex_gone = ex_in_room\<lparr>player_objs := [(new_Player ''s1'' ''ann'')\<lparr>isDNF := True\<rparr>]\<rparr>"


section \<open>Lookups and store updates\<close>

lemma find_Some_set: "List.find P xs = Some x \<Longrightarrow> x \<in> set xs \<and> P x"
  by (induction xs) (auto split: if_splits)

lemma find_None_set: "List.find P xs = None \<Longrightarrow> x \<in> set xs \<Longrightarrow> \<not> P x"
  by (induction xs) (auto split: if_splits)

lemma find_append_member:
  "List.find P xs = Some x \<Longrightarrow> List.find P (xs @ ys) = Some x"
  by (induction xs) (auto split: if_splits)

lemma nth_update_field:
  "f v = f (xs ! i) \<Longrightarrow> f (xs[i := v] ! j) = f (xs ! j)"
  by (cases "i < length xs") (auto simp: nth_list_update list_update_beyond)

lemma one_room_iff:
  "one_room st \<longleftrightarrow>
     (\<forall>r1 \<in> set (deps_rooms st). \<forall>r2 \<in> set (deps_rooms st). \<forall>x.
        has_occupant st r1 x \<and> has_occupant st r2 x \<longrightarrow> r1 = r2)"
  unfolding one_room_def has_occupant_def by (auto; metis)

lemma find_player_Some:
  "find_player st sid = Some p \<Longrightarrow>
     p \<in> set (deps_players st) \<and> id_player (player_objs st ! p) = sid"
  unfolding find_player_def by (drule find_Some_set) simp

lemma find_room_of_Some:
  "find_room_of st sid = Some r \<Longrightarrow> r \<in> set (deps_rooms st) \<and> has_occupant st r sid"
  unfolding find_room_of_def by (drule find_Some_set) simp

lemma find_room_of_None:
  "find_room_of st sid = None \<Longrightarrow> r \<in> set (deps_rooms st) \<Longrightarrow> \<not> has_occupant st r sid"
  unfolding find_room_of_def by (erule (1) find_None_set)

lemma find_room_by_id_Some:
  "find_room_by_id st rid = Some r \<Longrightarrow>
     r \<in> set (deps_rooms st) \<and> roomID (room_objs st ! r) = rid"
  unfolding find_room_by_id_def by (drule find_Some_set) simp

lemma find_joinable_Some:
  "find_joinable st = Some r \<Longrightarrow> r \<in> set (deps_rooms st) \<and> joinable (room_objs st ! r)"
  unfolding find_joinable_def by (drule find_Some_set) simp

lemma initializePlayer_refs_ok:
  assumes "refs_ok st" and "initializePlayer st sid name = (st', out)"
  shows "refs_ok st'"
proof (cases "\<exists>p \<in> set (deps_players st). id_player (player_objs st ! p) = sid")
  case True
  with assms show ?thesis by (simp add: initializePlayer_def)
next
  case False
  let ?n = "length (player_objs st)"
  from False assms(2) obtain pl where
    st': "st' = st\<lparr>player_objs := player_objs st @ [pl],
                   deps_players := deps_players st @ [?n]\<rparr>"
    and pl: "id_player pl = sid"
    by (auto simp: initializePlayer_def Let_def new_Player_def)
  from assms(1) have lt: "\<And>p. p \<in> set (deps_players st) \<Longrightarrow> p < ?n"
    by (simp add: refs_ok_def)
  have ids: "map (\<lambda>p. id_player ((player_objs st @ [pl]) ! p)) (deps_players st)
           = map (\<lambda>p. id_player (player_objs st ! p)) (deps_players st)"
    using lt by (simp add: nth_append)
  have "sid \<notin> set (map (\<lambda>p. id_player (player_objs st ! p)) (deps_players st))"
    using False by auto
  with assms(1) pl
  have "distinct (map (\<lambda>p. id_player ((player_objs st @ [pl]) ! p)) (deps_players st @ [?n]))"
    unfolding ids refs_ok_def by (simp add: ids)
  moreover have "\<forall>p \<in> set (deps_players st @ [?n]). p < length (player_objs st @ [pl])"
    using lt by (auto simp: less_Suc_eq)
  moreover have "\<forall>r \<in> set (deps_rooms st). r < length (room_objs st) \<and>
        set (players (room_objs st ! r)) \<subseteq> set (deps_players st @ [?n])"
    using assms(1) unfolding refs_ok_def by auto
  ultimately show ?thesis
    unfolding refs_ok_def st' by simp
qed

lemma initializePlayer_one_room:
  assumes "refs_ok st" and "one_room st" and "initializePlayer st sid name = (st', out)"
  shows "one_room st'"
proof (cases "\<exists>p \<in> set (deps_players st). id_player (player_objs st ! p) = sid")
  case True
  with assms show ?thesis by (simp add: initializePlayer_def)
next
  case False
  let ?n = "length (player_objs st)"
  from False assms(3) obtain pl where
    st': "st' = st\<lparr>player_objs := player_objs st @ [pl],
                   deps_players := deps_players st @ [?n]\<rparr>"
    by (auto simp: initializePlayer_def Let_def)
  have occ: "\<And>r p. r \<in> set (deps_rooms st) \<Longrightarrow> p \<in> set (players (room_objs st ! r)) \<Longrightarrow>
      (player_objs st @ [pl]) ! p = player_objs st ! p"
    using assms(1) unfolding refs_ok_def by (auto simp: nth_append)
  show ?thesis
    using assms(2) unfolding one_room_def st' by (simp add: occ)
qed

lemma inv_frame:
  assumes "deps_players st' = deps_players st" and "deps_rooms st' = deps_rooms st"
    and "length (player_objs st') = length (player_objs st)"
    and "\<And>p. id_player (player_objs st' ! p) = id_player (player_objs st ! p)"
    and "length (room_objs st') = length (room_objs st)"
    and "\<And>r. players (room_objs st' ! r) = players (room_objs st ! r)"
  shows "state_inv st' = state_inv st"
  unfolding state_inv_def refs_ok_def one_room_def by (simp add: assms)

lemma update_player_inv: "(\<And>pl. id_player (f pl) = id_player pl) \<Longrightarrow> state_inv (update_player st p f) = state_inv st"
  by (rule inv_frame) (simp_all add: update_player_def nth_update_field)

lemma processRematchRequest_inv:
  "processRematchRequest st r sid = (st', b) \<Longrightarrow> state_inv st' = state_inv st"
  by (rule inv_frame) (auto simp: processRematchRequest_def Let_def nth_update_field)

lemma startGame_inv: "startGame st r = (st', out) \<Longrightarrow> state_inv st' = state_inv st"
  by (rule inv_frame) (auto simp: startGame_def Let_def nth_update_field split: if_splits)

lemma playerDNF_inv: "state_inv (playerDNF st r pid) = state_inv st"
  by (simp add: playerDNF_def update_player_inv split: option.split)

lemma playerSolveComplete_inv: "playerSolveComplete st r pid t = (st', out) \<Longrightarrow> state_inv st' = state_inv st"
  by (auto simp: playerSolveComplete_def update_player_inv split: option.splits)

lemma ensureJoinableRoom_inv:
  assumes "state_inv st" and "ensureJoinableRoom cap st = Some (st', room)"
  shows "state_inv st'"
proof (cases "find_joinable st")
  case (Some r)
  with assms(2) have st': "st' = st\<lparr>deps_rooms := deps_rooms st @ [r]\<rparr>"
    by (auto simp: ensureJoinableRoom_def)
  from Some have "r \<in> set (deps_rooms st)" by (simp add: find_joinable_Some)
  then have "set (deps_rooms st @ [r]) = set (deps_rooms st)" by auto
  with assms(1) show ?thesis
    unfolding state_inv_def refs_ok_def one_room_def st' by simp
next
  case None
  let ?n = "length (room_objs st)"
  from None assms(2) obtain rid ds where
    st': "st' = st\<lparr>room_objs := room_objs st @ [new_Room cap rid],
                   deps_rooms := deps_rooms st @ [?n], draws := ds\<rparr>"
    by (auto simp: ensureJoinableRoom_def split: option.splits)
  have old: "\<And>r. r \<in> set (deps_rooms st) \<Longrightarrow>
      (room_objs st @ [new_Room cap rid]) ! r = room_objs st ! r"
    using assms(1) unfolding state_inv_def refs_ok_def by (auto simp: nth_append)
  have new: "players (new_Room cap rid) = []"
    by (simp add: new_Room_def)
  have lt: "\<And>r. r \<in> set (deps_rooms st) \<Longrightarrow> r < Suc ?n"
    using assms(1) unfolding state_inv_def refs_ok_def by (auto simp: less_Suc_eq)
  from assms(1) show ?thesis
    unfolding state_inv_def refs_ok_def one_room_def st' by (simp add: old new lt)
qed

lemma evict_frame:
  "deps_players (evict st sid player c) = deps_players st"
  "deps_rooms (evict st sid player c) = deps_rooms st"
  "length (player_objs (evict st sid player c)) = length (player_objs st)"
  "length (room_objs (evict st sid player c)) = length (room_objs st)"
  "id_player (player_objs (evict st sid player c) ! p) = id_player (player_objs st ! p)"
  by (simp_all add: evict_def removePlayer_def socket_leave_def update_player_def Let_def
        nth_update_field)

lemma evict_players:
  assumes "c < length (room_objs st)"
  shows "players (room_objs (evict st sid player c) ! r) =
     (if r = c
      then filter (\<lambda>p. id_player (player_objs st ! p) \<noteq> id_player (player_objs st ! player))
             (players (room_objs st ! c))
      else players (room_objs st ! r))"
  using assms
  by (simp add: evict_def removePlayer_def socket_leave_def update_player_def Let_def)

lemma addPlayer_frame:
  "deps_players (addPlayer st r player) = deps_players st"
  "deps_rooms (addPlayer st r player) = deps_rooms st"
  "player_objs (addPlayer st r player) = player_objs st"
  "length (room_objs (addPlayer st r player)) = length (room_objs st)"
  by (simp_all add: addPlayer_def Let_def)

lemma addPlayer_players:
  assumes "r < length (room_objs st)"
  shows "players (room_objs (addPlayer st r player) ! r') =
     (if r' = r then players (room_objs st ! r) @ [player] else players (room_objs st ! r'))"
  using assms by (simp add: addPlayer_def Let_def)

lemma socket_join_frame:
  "deps_players (socket_join st sid name) = deps_players st"
  "deps_rooms (socket_join st sid name) = deps_rooms st"
  "player_objs (socket_join st sid name) = player_objs st"
  "room_objs (socket_join st sid name) = room_objs st"
  by (simp_all add: socket_join_def)

lemma startGame_frame:
  "deps_players (fst (startGame st r)) = deps_players st"
  "deps_rooms (fst (startGame st r)) = deps_rooms st"
  "player_objs (fst (startGame st r)) = player_objs st"
  "length (room_objs (fst (startGame st r))) = length (room_objs st)"
  "players (room_objs (fst (startGame st r)) ! r') = players (room_objs st ! r')"
  by (simp_all add: startGame_def Let_def nth_update_field)

lemma has_occupant_cong:
  assumes "\<And>p. id_player (player_objs st' ! p) = id_player (player_objs st ! p)"
    and "players (room_objs st' ! r) = players (room_objs st ! r)"
  shows "has_occupant st' r x = has_occupant st r x"
  unfolding has_occupant_def by (simp add: assms)

lemma evict_occupant:
  assumes "c < length (room_objs st)" and "id_player (player_objs st ! player) = sid"
  shows "has_occupant (evict st sid player c) r x \<longleftrightarrow>
           has_occupant st r x \<and> \<not> (r = c \<and> x = sid)"
  unfolding has_occupant_def using assms
  by (auto simp: evict_frame evict_players)

lemma addPlayer_occupant:
  assumes "r < length (room_objs st)"
  shows "has_occupant (addPlayer st r player) r' x \<longleftrightarrow>
           has_occupant st r' x \<or> (r' = r \<and> x = id_player (player_objs st ! player))"
  unfolding has_occupant_def using assms
  by (auto simp: addPlayer_frame addPlayer_players)

lemma evicted_frame:
  "deps_players (evicted st sid player) = deps_players st"
  "deps_rooms (evicted st sid player) = deps_rooms st"
  "length (player_objs (evicted st sid player)) = length (player_objs st)"
  "length (room_objs (evicted st sid player)) = length (room_objs st)"
  "id_player (player_objs (evicted st sid player) ! p) = id_player (player_objs st ! p)"
  by (simp_all add: evicted_def evict_frame split: option.split)

lemma evicted_occupant:
  assumes "state_inv st" and "find_player st sid = Some player" and "r \<in> set (deps_rooms st)"
  shows "has_occupant (evicted st sid player) r x \<longleftrightarrow> has_occupant st r x \<and> x \<noteq> sid"
proof (cases "find_room_of st sid")
  case None
  with assms(3) have "\<not> has_occupant st r sid" by (simp add: find_room_of_None)
  with None show ?thesis by (auto simp: evicted_def)
next
  case (Some c)
  then have c: "c \<in> set (deps_rooms st)" "has_occupant st c sid"
    by (simp_all add: find_room_of_Some)
  with assms(1) have lt: "c < length (room_objs st)" by (simp add: state_inv_def refs_ok_def)
  from assms(2) have pid: "id_player (player_objs st ! player) = sid"
    by (simp add: find_player_Some)
  from assms(1) c assms(3) have "has_occupant st r sid \<Longrightarrow> r = c"
    unfolding state_inv_def one_room_iff by blast
  with Some lt pid show ?thesis
    by (auto simp: evicted_def evict_occupant)
qed

lemma roomJoined_eq:
  assumes "find_player st sid = Some player" and "find_room_by_id st rid = Some room"
  shows "roomJoined st sid rid =
     startGame (addPlayer (socket_join (evicted st sid player) sid
        (roomID (room_objs (evicted st sid player) ! room))) room player) room"
  using assms by (simp add: roomJoined_def evicted_def Let_def)

lemma roomJoined_occupant:
  assumes "state_inv st" and "find_player st sid = Some player"
    and "find_room_by_id st rid = Some room" and "r \<in> set (deps_rooms st)"
  shows "has_occupant (fst (roomJoined st sid rid)) r x \<longleftrightarrow>
           (if x = sid then r = room else has_occupant st r x)"
proof -
  let ?e = "evicted st sid player"
  let ?j = "socket_join ?e sid (roomID (room_objs ?e ! room))"
  let ?a = "addPlayer ?j room player"
  from assms(3) have "room \<in> set (deps_rooms st)" by (simp add: find_room_by_id_Some)
  with assms(1) have lt: "room < length (room_objs ?j)"
    by (simp add: state_inv_def refs_ok_def socket_join_frame evicted_frame)
  from assms(2) have pid: "id_player (player_objs ?j ! player) = sid"
    by (simp add: find_player_Some socket_join_frame evicted_frame)
  have "has_occupant (fst (startGame ?a room)) r x = has_occupant ?a r x"
    by (rule has_occupant_cong) (simp_all add: startGame_frame)
  also have "\<dots> \<longleftrightarrow> has_occupant ?j r x \<or> (r = room \<and> x = sid)"
    using lt pid by (simp add: addPlayer_occupant)
  also have "has_occupant ?j r x = has_occupant ?e r x"
    by (rule has_occupant_cong) (simp_all add: socket_join_frame)
  also have "\<dots> \<longleftrightarrow> has_occupant st r x \<and> x \<noteq> sid"
    using assms(1,2,4) by (rule evicted_occupant)
  finally show ?thesis
    using assms(2,3) by (auto simp: roomJoined_eq)
qed

lemma evicted_players_subset:
  assumes "state_inv st"
  shows "set (players (room_objs (evicted st sid player) ! r))
           \<subseteq> set (players (room_objs st ! r))"
proof (cases "find_room_of st sid")
  case None
  then show ?thesis by (simp add: evicted_def)
next
  case (Some c)
  then have "c \<in> set (deps_rooms st)" by (simp add: find_room_of_Some)
  with assms have "c < length (room_objs st)" by (simp add: state_inv_def refs_ok_def)
  with Some show ?thesis by (auto simp: evicted_def evict_players)
qed

lemma roomJoined_frame:
  "deps_players (fst (roomJoined st sid rid)) = deps_players st"
  "deps_rooms (fst (roomJoined st sid rid)) = deps_rooms st"
  "length (player_objs (fst (roomJoined st sid rid))) = length (player_objs st)"
  "length (room_objs (fst (roomJoined st sid rid))) = length (room_objs st)"
  "id_player (player_objs (fst (roomJoined st sid rid)) ! p) = id_player (player_objs st ! p)"
  by (simp_all add: roomJoined_def Let_def startGame_frame addPlayer_frame socket_join_frame
        evict_frame split: option.split)

lemma roomJoined_refs_ok:
  assumes "state_inv st"
  shows "refs_ok (fst (roomJoined st sid rid))"
proof (cases "find_player st sid")
  case None
  with assms show ?thesis by (simp add: roomJoined_def state_inv_def)
next
  case player: (Some player)
  show ?thesis
  proof (cases "find_room_by_id st rid")
    case None
    with player assms show ?thesis by (simp add: roomJoined_def state_inv_def)
  next
    case (Some room)
    let ?e = "evicted st sid player"
    let ?j = "socket_join ?e sid (roomID (room_objs ?e ! room))"
    from Some have "room \<in> set (deps_rooms st)" by (simp add: find_room_by_id_Some)
    with assms have lt: "room < length (room_objs ?j)"
      by (simp add: state_inv_def refs_ok_def socket_join_frame evicted_frame)
    from player have mem: "player \<in> set (deps_players st)" by (simp add: find_player_Some)
    have sub: "set (players (room_objs (fst (roomJoined st sid rid)) ! r))
        \<subseteq> set (deps_players st)" if "r \<in> set (deps_rooms st)" for r
    proof -
      from assms that have "set (players (room_objs st ! r)) \<subseteq> set (deps_players st)"
        by (simp add: state_inv_def refs_ok_def)
      with evicted_players_subset [OF assms, of sid player r] mem lt show ?thesis
        by (auto simp: roomJoined_eq [OF player Some] startGame_frame addPlayer_players
              socket_join_frame)
    qed
    from assms sub show ?thesis
      unfolding state_inv_def refs_ok_def by (simp add: roomJoined_frame)
  qed
qed

lemma roomJoined_one_room:
  assumes "state_inv st"
  shows "one_room (fst (roomJoined st sid rid))"
proof (cases "find_player st sid")
  case None
  with assms show ?thesis by (simp add: roomJoined_def state_inv_def)
next
  case player: (Some player)
  show ?thesis
  proof (cases "find_room_by_id st rid")
    case None
    with player assms show ?thesis by (simp add: roomJoined_def state_inv_def)
  next
    case (Some room)
    from assms have one: "\<And>r1 r2 x. r1 \<in> set (deps_rooms st) \<Longrightarrow> r2 \<in> set (deps_rooms st) \<Longrightarrow>
        has_occupant st r1 x \<Longrightarrow> has_occupant st r2 x \<Longrightarrow> r1 = r2"
      unfolding state_inv_def one_room_iff by blast
    show ?thesis
      unfolding one_room_iff
      by (auto simp: roomJoined_frame roomJoined_occupant [OF assms player Some]
            split: if_splits intro: one)
  qed
qed

lemma roomJoined_inv: "state_inv st \<Longrightarrow> state_inv (fst (roomJoined st sid rid))"
  by (simp add: state_inv_def [of "fst (roomJoined st sid rid)"] roomJoined_refs_ok
        roomJoined_one_room)

lemma initializePlayer_inv: "state_inv st \<Longrightarrow> state_inv (fst (initializePlayer st sid name))"
  using initializePlayer_refs_ok [of st sid name] initializePlayer_one_room [of st sid name]
  by (cases "initializePlayer st sid name") (simp add: state_inv_def)

lemma joinRandomRoom_inv:
  "state_inv st \<Longrightarrow> joinRandomRoom cap st sid = Some (st', out) \<Longrightarrow> state_inv st'"
  by (auto simp: joinRandomRoom_def split: option.splits dest: ensureJoinableRoom_inv)

lemma joinRematchRoom_inv:
  "state_inv st \<Longrightarrow> joinRematchRoom cap st sid = Some (st', out) \<Longrightarrow> state_inv st'"
  by (auto simp: joinRematchRoom_def split: option.splits prod.splits if_splits
        dest: ensureJoinableRoom_inv processRematchRequest_inv)

lemma handleKeyboardInput_inv: "state_inv st \<Longrightarrow> state_inv (fst (handleKeyboardInput st sid senderID key))"
  by (simp add: handleKeyboardInput_def handleInput_def split: option.split)

lemma handleSolveComplete_inv: "state_inv st \<Longrightarrow> state_inv (fst (handleSolveComplete st sid socketID t))"
  by (simp add: handleSolveComplete_def playerSolveComplete_def update_player_inv
        split: option.split)

lemma disconnectPlayer_inv: "state_inv st \<Longrightarrow> state_inv (fst (disconnectPlayer st sid))"
  by (simp add: disconnectPlayer_def playerDNF_inv split: option.split)

lemma dispatch_inv:
  "state_inv st \<Longrightarrow> dispatch cap st sid ev = Some (st', out) \<Longrightarrow> state_inv st'"
proof (cases ev)
  case (Initialize name)
  assume "state_inv st" "dispatch cap st sid ev = Some (st', out)"
  with Initialize initializePlayer_inv [of st sid name] show ?thesis by auto
next
  case Join_random
  assume "state_inv st" "dispatch cap st sid ev = Some (st', out)"
  with Join_random show ?thesis by (auto dest: joinRandomRoom_inv)
next
  case Join_rematch
  assume "state_inv st" "dispatch cap st sid ev = Some (st', out)"
  with Join_rematch show ?thesis by (auto dest: joinRematchRoom_inv)
next
  case (Joined rid)
  assume "state_inv st" "dispatch cap st sid ev = Some (st', out)"
  with Joined roomJoined_inv [of st sid rid] show ?thesis by auto
next
  case (Input senderID key)
  assume "state_inv st" "dispatch cap st sid ev = Some (st', out)"
  with Input handleKeyboardInput_inv [of st sid senderID key] show ?thesis by auto
next
  case (Completed_solve socketID t)
  assume "state_inv st" "dispatch cap st sid ev = Some (st', out)"
  with Completed_solve handleSolveComplete_inv [of st sid socketID t] show ?thesis by auto
next
  case Disconnect
  assume "state_inv st" "dispatch cap st sid ev = Some (st', out)"
  with Disconnect disconnectPlayer_inv [of st sid] show ?thesis by auto
qed

lemma init_state_inv: "state_inv (init_state ds)"
  by (simp add: state_inv_def refs_ok_def one_room_def init_state_def)

lemma reachable_inv: "reachable cap st \<Longrightarrow> state_inv st"
  by (induction rule: reachable.induct) (auto intro: init_state_inv dispatch_inv)

section \<open>Reachability of the scenarios\<close>

lemmas handler_defs = init_state_def initializePlayer_def new_Player_def joinRandomRoom_def
  find_player_def ensureJoinableRoom_def find_joinable_def joinable_def new_Room_def
  roomJoined_def find_room_by_id_def find_room_of_def has_occupant_def evict_def
  removePlayer_def socket_leave_def socket_join_def addPlayer_def startGame_def
  update_player_def handleSolveComplete_def disconnectPlayer_def playerDNF_def occupant_def
  playerSolveComplete_def

lemma run_reachable: "reachable cap st \<Longrightarrow> run cap st evs = Some st' \<Longrightarrow> reachable cap st'"
proof (induction evs arbitrary: st)
  case Nil
  then show ?case by simp
next
  case (Cons e evs)
  obtain sid ev where e: "e = (sid, ev)" by (cases e)
  with Cons.prems(2) obtain st1 out where
    d: "dispatch cap st sid ev = Some (st1, out)" and r: "run cap st1 evs = Some st'"
    by (auto split: option.splits)
  from Cons.prems(1) d have "reachable cap st1" by (rule reachable_step)
  then show ?case using r by (rule Cons.IH)
qed

lemma ex_in_room_run: "run 2 (init_state [''a1b2c'', ''0f3e9'']) ex_trace = Some ex_in_room"
  by (simp add: ex_trace_def ex_in_room_def handler_defs)

lemma ex_in_room_reachable: "reachable 2 ex_in_room"
  by (rule run_reachable [OF reachable_init ex_in_room_run])

section \<open>The room-resolution step\<close>

lemma find_append_None: "List.find P xs = None \<Longrightarrow> List.find P (xs @ ys) = List.find P ys"
  by (induction xs) (auto split: if_splits)

lemma find_same_on_set: "(\<And>x. x \<in> set xs \<Longrightarrow> P x = Q x) \<Longrightarrow> List.find P xs = List.find Q xs"
  by (induction xs) auto

lemma genFreshID_returns:
  "\<exists>d \<in> set ds. d \<notin> set ids \<Longrightarrow> \<exists>d ds'. genFreshID ids ds = Some (d, ds')"
  by (induction ds) auto

lemma genFreshID_fresh: "genFreshID ids ds = Some (d, ds') \<Longrightarrow> d \<notin> set ids"
  by (induction ds) (auto split: if_splits)

lemma ensureJoinableRoom_returns:
  assumes "find_joinable st \<noteq> None \<or>
     (\<exists>d \<in> set (draws st). \<forall>r \<in> set (deps_rooms st). roomID (room_objs st ! r) \<noteq> d)"
  shows "\<exists>st1 room. ensureJoinableRoom cap st = Some (st1, room)"
proof (cases "find_joinable st")
  case (Some r)
  then show ?thesis by (simp add: ensureJoinableRoom_def)
next
  case None
  with assms obtain d0 where "d0 \<in> set (draws st)"
    and "\<forall>r \<in> set (deps_rooms st). roomID (room_objs st ! r) \<noteq> d0"
    by auto
  then have "d0 \<in> set (draws st) \<and>
      d0 \<notin> set (map (\<lambda>r. roomID (room_objs st ! r)) (deps_rooms st))"
    by auto
  then have "\<exists>d \<in> set (draws st).
      d \<notin> set (map (\<lambda>r. roomID (room_objs st ! r)) (deps_rooms st))" by blast
  then obtain d ds' where
    "genFreshID (map (\<lambda>r. roomID (room_objs st ! r)) (deps_rooms st)) (draws st) = Some (d, ds')"
    using genFreshID_returns by blast
  with None show ?thesis by (simp add: ensureJoinableRoom_def)
qed

lemma ensureJoinableRoom_found:
  "find_joinable st = Some r \<Longrightarrow>
     ensureJoinableRoom cap st = Some (st\<lparr>deps_rooms := deps_rooms st @ [r]\<rparr>, r)"
  by (simp add: ensureJoinableRoom_def)

lemma ensureJoinableRoom_created:
  assumes "find_joinable st = None" and "ensureJoinableRoom cap st = Some (st1, room)"
  shows "\<exists>rid ds. st1 = st\<lparr>room_objs := room_objs st @ [new_Room cap rid],
                   deps_rooms := deps_rooms st @ [length (room_objs st)], draws := ds\<rparr>
            \<and> room = length (room_objs st)
            \<and> (\<forall>r \<in> set (deps_rooms st). roomID (room_objs st ! r) \<noteq> rid)"
  using assms
  by (auto simp: ensureJoinableRoom_def split: option.splits dest!: genFreshID_fresh)

lemma ensureJoinableRoom_frame:
  assumes "refs_ok st" and "ensureJoinableRoom cap st = Some (st1, room)"
  shows "room \<in> set (deps_rooms st1)"
    and "player_objs st1 = player_objs st"
    and "deps_players st1 = deps_players st"
    and "channels st1 = channels st"
    and "set (deps_rooms st) \<subseteq> set (deps_rooms st1)"
    and "\<And>r. r \<in> set (deps_rooms st) \<Longrightarrow> room_objs st1 ! r = room_objs st ! r"
    and "\<And>r. r \<in> set (deps_rooms st1) \<Longrightarrow> r \<notin> set (deps_rooms st) \<Longrightarrow>
           players (room_objs st1 ! r) = []"
    and "1 \<le> cap \<Longrightarrow> joinable (room_objs st1 ! room)"
proof -
  have lt: "\<And>r. r \<in> set (deps_rooms st) \<Longrightarrow> r < length (room_objs st)"
    using assms(1) by (simp add: refs_ok_def)
  show "room \<in> set (deps_rooms st1)" "player_objs st1 = player_objs st"
    "deps_players st1 = deps_players st" "channels st1 = channels st"
    "set (deps_rooms st) \<subseteq> set (deps_rooms st1)"
    using assms(2)
    by (auto simp: ensureJoinableRoom_def split: option.splits)
  show "room_objs st1 ! r = room_objs st ! r" if "r \<in> set (deps_rooms st)" for r
    using assms(2) lt [OF that]
    by (auto simp: ensureJoinableRoom_def nth_append split: option.splits)
  show "players (room_objs st1 ! r) = []"
    if "r \<in> set (deps_rooms st1)" "r \<notin> set (deps_rooms st)" for r
    using assms(2) that
    by (auto simp: ensureJoinableRoom_def new_Room_def dest: find_joinable_Some
          split: option.splits)
  show "joinable (room_objs st1 ! room)" if "1 \<le> cap"
    using assms(2) that
    by (auto simp: ensureJoinableRoom_def new_Room_def joinable_def dest: find_joinable_Some
          split: option.splits)
qed

lemma ensureJoinableRoom_again:
  assumes "refs_ok st" and "1 \<le> cap" and "ensureJoinableRoom cap st = Some (st1, room)"
  shows "ensureJoinableRoom cap st1 = Some (st1\<lparr>deps_rooms := deps_rooms st1 @ [room]\<rparr>, room)"
proof (cases "find_joinable st")
  case (Some r)
  with assms(3) have st1: "st1 = st\<lparr>deps_rooms := deps_rooms st @ [r]\<rparr>" and r: "room = r"
    by (auto simp: ensureJoinableRoom_def)
  from Some have "find_joinable st1 = Some r"
    unfolding find_joinable_def st1 by (simp add: find_append_member)
  then show ?thesis unfolding r by (rule ensureJoinableRoom_found)
next
  case None
  let ?n = "length (room_objs st)"
  from ensureJoinableRoom_created [OF None assms(3)] obtain rid ds where
    st1: "st1 = st\<lparr>room_objs := room_objs st @ [new_Room cap rid],
                   deps_rooms := deps_rooms st @ [?n], draws := ds\<rparr>"
    and r: "room = ?n"
    by blast
  have old: "joinable ((room_objs st @ [new_Room cap rid]) ! r) = joinable (room_objs st ! r)"
    if "r \<in> set (deps_rooms st)" for r
    using assms(1) that by (simp add: refs_ok_def nth_append)
  have "List.find (\<lambda>r. joinable ((room_objs st @ [new_Room cap rid]) ! r)) (deps_rooms st)
      = List.find (\<lambda>r. joinable (room_objs st ! r)) (deps_rooms st)"
    by (rule find_same_on_set) (rule old)
  also have "\<dots> = None" using None by (simp add: find_joinable_def)
  finally have "find_joinable st1 = Some ?n"
    unfolding find_joinable_def st1 using assms(2)
    by (simp add: find_append_None joinable_def new_Room_def)
  then show ?thesis unfolding r by (rule ensureJoinableRoom_found)
qed

lemma ensureJoinableRoom_choice:
  assumes "ensureJoinableRoom cap st = Some (st', room)"
  shows "(\<forall>r. find_joinable st = Some r \<longrightarrow> room = r \<and> room_objs st' = room_objs st)"
    and "find_joinable st = None \<longrightarrow>
        room = length (room_objs st) \<and>
        (\<exists>ds. genFreshID (map (\<lambda>r. roomID (room_objs st ! r)) (deps_rooms st)) (draws st)
                = Some (roomID (room_objs st' ! room), ds)) \<and>
        (\<forall>r \<in> set (deps_rooms st). roomID (room_objs st ! r) \<noteq> roomID (room_objs st' ! room))"
proof -
  show "\<forall>r. find_joinable st = Some r \<longrightarrow> room = r \<and> room_objs st' = room_objs st"
    using assms by (auto simp: ensureJoinableRoom_def)
  show "find_joinable st = None \<longrightarrow>
        room = length (room_objs st) \<and>
        (\<exists>ds. genFreshID (map (\<lambda>r. roomID (room_objs st ! r)) (deps_rooms st)) (draws st)
                = Some (roomID (room_objs st' ! room), ds)) \<and>
        (\<forall>r \<in> set (deps_rooms st). roomID (room_objs st ! r) \<noteq> roomID (room_objs st' ! room))"
  proof
    assume n: "find_joinable st = None"
    from n assms obtain rid ds where
      g: "genFreshID (map (\<lambda>r. roomID (room_objs st ! r)) (deps_rooms st)) (draws st) = Some (rid, ds)"
      and st': "st' = st\<lparr>room_objs := room_objs st @ [new_Room cap rid],
                   deps_rooms := deps_rooms st @ [length (room_objs st)], draws := ds\<rparr>"
      and r: "room = length (room_objs st)"
      by (auto simp: ensureJoinableRoom_def split: option.splits)
    have rid: "roomID (room_objs st' ! room) = rid"
      unfolding st' r by (simp add: new_Room_def)
    from genFreshID_fresh [OF g]
    have "\<forall>r \<in> set (deps_rooms st). roomID (room_objs st ! r) \<noteq> rid" by auto
    with g r rid show "room = length (room_objs st) \<and>
        (\<exists>ds. genFreshID (map (\<lambda>r. roomID (room_objs st ! r)) (deps_rooms st)) (draws st)
                = Some (roomID (room_objs st' ! room), ds)) \<and>
        (\<forall>r \<in> set (deps_rooms st). roomID (room_objs st ! r) \<noteq> roomID (room_objs st' ! room))"
      by simp
  qed
qed

section \<open>Occupants are registered Players\<close>

lemma find_not_None: "x \<in> set xs \<Longrightarrow> P x \<Longrightarrow> List.find P xs \<noteq> None"
  by (induction xs) auto

lemma registry_unique:
  assumes "refs_ok st" and "p \<in> set (deps_players st)" and "q \<in> set (deps_players st)"
    and "id_player (player_objs st ! p) = id_player (player_objs st ! q)"
  shows "p = q"
proof -
  from assms(1) have "inj_on (\<lambda>p. id_player (player_objs st ! p)) (set (deps_players st))"
    by (simp add: refs_ok_def distinct_map)
  with assms(2-4) show ?thesis by (auto dest: inj_onD)
qed

lemma occupant_is_registered:
  assumes "refs_ok st" and "r \<in> set (deps_rooms st)"
    and "q \<in> set (players (room_objs st ! r))" and "id_player (player_objs st ! q) = sid"
  shows "\<exists>player. find_player st sid = Some player \<and> player = q"
proof -
  from assms(1-3) have q: "q \<in> set (deps_players st)" by (auto simp: refs_ok_def)
  with assms(4) have "find_player st sid \<noteq> None"
    unfolding find_player_def by (intro find_not_None [of q]) simp_all
  then obtain player where f: "find_player st sid = Some player" by auto
  then have "player \<in> set (deps_players st)" "id_player (player_objs st ! player) = sid"
    by (simp_all add: find_player_Some)
  with assms(1,4) q have "player = q" by (intro registry_unique [of st]) simp_all
  with f show ?thesis by simp
qed

section \<open>More reachable scenarios\<close>

lemma ex_registered_reachable: "reachable 2 ex_registered"
proof -
  have "dispatch 2 (init_state [''a1b2c'', ''0f3e9'']) ''s1'' (Initialize ''ann'')
      = Some (ex_registered, snd (initializePlayer (init_state [''a1b2c'', ''0f3e9'']) ''s1'' ''ann''))"
    by (simp add: ex_registered_def)
  with reachable_init show ?thesis by (rule reachable_step)
qed

lemmas handler_defs2 = handler_defs joinRematchRoom_def processRematchRequest_def
  handleKeyboardInput_def handleInput_def

lemma ex_race_run: "run 2 (init_state [''a1b2c'', ''0f3e9'']) ex_race_trace = Some ex_race"
  by (simp add: ex_race_trace_def ex_race_def handler_defs insert_commute)

lemma ex_race_reachable: "reachable 2 ex_race"
  by (rule run_reachable [OF reachable_init ex_race_run])

lemma ex_voted_run: "run 2 ex_race [(''s1'', Join_rematch)] = Some ex_voted"
  by (simp add: ex_voted_def ex_race_def handler_defs2)

lemma ex_voted_reachable: "reachable 2 ex_voted"
  by (rule run_reachable [OF ex_race_reachable ex_voted_run])





section \<open>Registry lookups\<close>

lemma find_player_registered:
  "find_player st sid \<noteq> None \<longleftrightarrow>
     (\<exists>p \<in> set (deps_players st). id_player (player_objs st ! p) = sid)"
  unfolding find_player_def by (auto simp: find_None_iff)

section \<open>The outcomes of joinRematchRoom\<close>

text \<open>
  Without a Player or a containing room the handler rejects; when
  \<^verbatim>\<open>processRematchRequest\<close> returns false it creates and emits nothing; when it
  returns true the room-resolution step runs on the state left by the vote and the id of
  its room goes out on the channel named by the old room's id.
\<close>

lemma joinRematchRoom_outcomes:
  assumes "reachable cap st"
  shows "(find_player st sid = None \<or> find_room_of st sid = None \<longrightarrow>
       joinRematchRoom cap st sid = Some (st, [Io_to sid Join_invalid])) \<and>
     (\<forall>player room st1.
        find_player st sid = Some player \<and> find_room_of st sid = Some room \<and>
        processRematchRequest st room sid = (st1, False) \<longrightarrow>
          joinRematchRoom cap st sid = Some (st1, []) \<and>
          deps_rooms st1 = deps_rooms st \<and> length (room_objs st1) = length (room_objs st)) \<and>
     (\<forall>player room st1.
        find_player st sid = Some player \<and> find_room_of st sid = Some room \<and>
        processRematchRequest st room sid = (st1, True) \<and>
        (find_joinable st1 \<noteq> None \<or>
         (\<exists>d \<in> set (draws st1). \<forall>r \<in> set (deps_rooms st1). roomID (room_objs st1 ! r) \<noteq> d)) \<longrightarrow>
          (\<exists>st2 newRoom.
             ensureJoinableRoom cap st1 = Some (st2, newRoom) \<and>
             joinRematchRoom cap st sid =
               Some (st2, [Io_to (roomID (room_objs st ! room))
                             (Room_found (roomID (room_objs st2 ! newRoom)))]) \<and>
             newRoom \<in> set (deps_rooms st2) \<and>
             (1 \<le> cap \<longrightarrow> joinable (room_objs st2 ! newRoom))))"
proof (intro conjI allI impI)
  assume "find_player st sid = None \<or> find_room_of st sid = None"
  then show "joinRematchRoom cap st sid = Some (st, [Io_to sid Join_invalid])"
    by (auto simp: joinRematchRoom_def split: option.splits)
next
  fix player room st1
  assume h: "find_player st sid = Some player \<and> find_room_of st sid = Some room \<and>
        processRematchRequest st room sid = (st1, False)"
  then show "joinRematchRoom cap st sid = Some (st1, [])"
    by (simp add: joinRematchRoom_def)
  from h show "deps_rooms st1 = deps_rooms st" "length (room_objs st1) = length (room_objs st)"
    by (auto simp: processRematchRequest_def Let_def)
next
  fix player room st1
  assume h: "find_player st sid = Some player \<and> find_room_of st sid = Some room \<and>
        processRematchRequest st room sid = (st1, True) \<and>
        (find_joinable st1 \<noteq> None \<or>
         (\<exists>d \<in> set (draws st1). \<forall>r \<in> set (deps_rooms st1). roomID (room_objs st1 ! r) \<noteq> d))"
  then have p: "processRematchRequest st room sid = (st1, True)" by simp
  from assms have "state_inv st" by (rule reachable_inv)
  with processRematchRequest_inv [OF p] have ok: "refs_ok st1" by (simp add: state_inv_def)
  from h have "room \<in> set (deps_rooms st)" using find_room_of_Some by blast
  with p have room: "room \<in> set (deps_rooms st1)"
    by (auto simp: processRematchRequest_def Let_def)
  from p have rid: "roomID (room_objs st1 ! room) = roomID (room_objs st ! room)"
    by (auto simp: processRematchRequest_def Let_def nth_update_field)
  from h ensureJoinableRoom_returns [of st1 cap] obtain st2 newRoom where
    e: "ensureJoinableRoom cap st1 = Some (st2, newRoom)" by blast
  note f = ensureJoinableRoom_frame [OF ok e]
  from f(6) [OF room] rid have "roomID (room_objs st2 ! room) = roomID (room_objs st ! room)"
    by simp
  with h e have "joinRematchRoom cap st sid =
      Some (st2, [Io_to (roomID (room_objs st ! room))
                    (Room_found (roomID (room_objs st2 ! newRoom)))])"
    by (simp add: joinRematchRoom_def)
  with e f(1) f(8) show "\<exists>st2 newRoom.
             ensureJoinableRoom cap st1 = Some (st2, newRoom) \<and>
             joinRematchRoom cap st sid =
               Some (st2, [Io_to (roomID (room_objs st ! room))
                             (Room_found (roomID (room_objs st2 ! newRoom)))]) \<and>
             newRoom \<in> set (deps_rooms st2) \<and>
             (1 \<le> cap \<longrightarrow> joinable (room_objs st2 ! newRoom))"
    by blast
qed

section \<open>The claims\<close>

subsection \<open>C1: the directory and duplicate room ids\<close>

text \<open>
  C1 says that the room directory never holds two entries with the same roomID, and that
  join_random never adds a second entry with the id of an existing one. The handler pushes
  the chosen room onto the directory also when it was found there: after one connection
  has initialized and asked for a random room twice, with rooms of capacity 2, the
  directory holds the room \<open>a1b2c\<close> in two slots.
\<close>

theorem join_random_duplicates_directory_entry:
  "map_option (\<lambda>st. map (\<lambda>r. roomID (room_objs st ! r)) (deps_rooms st))
     (run 2 (init_state [''a1b2c''])
        [(''s1'', Initialize ''ann''), (''s1'', Join_random), (''s1'', Join_random)])
   = Some [''a1b2c'', ''a1b2c'']"
  by (simp add: handler_defs)

subsection \<open>C2: disconnect\<close>

text \<open>
  C2 says that after a connection's disconnect event its id is absent from the player
  registry. The handler never removes anything from \<^verbatim>\<open>deps['players']\<close>: after
  \<open>s1\<close> has initialized and disconnected, its Player is still found there.
\<close>

theorem disconnect_leaves_player_registered:
  "map_option (\<lambda>st. find_player st ''s1'')
     (run 2 (init_state []) [(''s1'', Initialize ''ann''), (''s1'', Disconnect)]) = Some (Some 0)"
  by (simp add: handler_defs)

text \<open>
  C2 as amended: after a connection's disconnect event is processed the player registry
  is unchanged, so a registered connection is still found in it; and if the connection
  was an occupant of some room of the directory, that room's occupant list is unchanged
  and the occupant's isDNF flag is true.
\<close>

theorem disconnectPlayer_keeps_registry_marks_DNF:
  assumes "reachable cap st"
  shows "deps_players (fst (disconnectPlayer st sid)) = deps_players st \<and>
     find_player (fst (disconnectPlayer st sid)) sid = find_player st sid \<and>
     (\<forall>r \<in> set (deps_rooms st). has_occupant st r sid \<longrightarrow>
        players (room_objs (fst (disconnectPlayer st sid)) ! r) = players (room_objs st ! r) \<and>
        (\<forall>q \<in> set (players (room_objs st ! r)).
           id_player (player_objs st ! q) = sid \<longrightarrow>
             isDNF (player_objs (fst (disconnectPlayer st sid)) ! q)))"
proof -
  let ?st' = "fst (disconnectPlayer st sid)"
  from assms have inv: "state_inv st" by (rule reachable_inv)
  then have ok: "refs_ok st" by (simp add: state_inv_def)
  have frame: "deps_players ?st' = deps_players st" "room_objs ?st' = room_objs st"
    "\<And>p. id_player (player_objs ?st' ! p) = id_player (player_objs st ! p)"
    by (simp_all add: disconnectPlayer_def playerDNF_def update_player_def nth_update_field
          split: option.split)
  have fp: "find_player ?st' sid = find_player st sid"
    unfolding find_player_def by (simp add: frame)
  have dnf: "isDNF (player_objs ?st' ! q)"
    if r: "r \<in> set (deps_rooms st)" and q: "q \<in> set (players (room_objs st ! r))"
      and qid: "id_player (player_objs st ! q) = sid" for r q
  proof -
    from occupant_is_registered [OF ok r q qid] have p: "find_player st sid = Some q" by simp
    from q qid have occ: "has_occupant st r sid" by (auto simp: has_occupant_def)
    with r have "find_room_of st sid \<noteq> None"
      unfolding find_room_of_def by (intro find_not_None [of r]) simp_all
    then obtain c where c: "find_room_of st sid = Some c" by auto
    then have "c \<in> set (deps_rooms st)" "has_occupant st c sid"
      by (simp_all add: find_room_of_Some)
    with inv r occ have "c = r" unfolding state_inv_def one_room_iff by blast
    with c have c': "find_room_of st sid = Some r" by simp
    from q qid have "occupant st r sid \<noteq> None"
      unfolding occupant_def by (intro find_not_None [of q]) simp_all
    then obtain q0 where q0: "occupant st r sid = Some q0" by auto
    then have "q0 \<in> set (players (room_objs st ! r))" "id_player (player_objs st ! q0) = sid"
      unfolding occupant_def by (auto dest: find_Some_set)
    from occupant_is_registered [OF ok r this] p have "q0 = q" by simp
    from ok r q have "q < length (player_objs st)" by (auto simp: refs_ok_def)
    with p c' q0 \<open>q0 = q\<close> qid show ?thesis
      by (simp add: disconnectPlayer_def playerDNF_def update_player_def)
  qed
  from frame(1) fp frame(2) dnf show ?thesis by simp
qed

theorem disconnectPlayer_keeps_registry_marks_DNF_witness:
  "reachable 2 ex_in_room \<and> 0 \<in> set (deps_rooms ex_in_room) \<and>
   has_occupant ex_in_room 0 ''s1'' \<and> 0 \<in> set (players (room_objs ex_in_room ! 0)) \<and>
   id_player (player_objs ex_in_room ! 0) = ''s1'' \<and>
   disconnectPlayer ex_in_room ''s1'' = (ex_gone, []) \<and>
   find_player ex_gone ''s1'' = Some 0 \<and>
   players (room_objs ex_gone ! 0) = [0] \<and> isDNF (player_objs ex_gone ! 0)"
proof -
  have h: "0 \<in> set (deps_rooms ex_in_room)" "has_occupant ex_in_room 0 ''s1''"
    "0 \<in> set (players (room_objs ex_in_room ! 0))" "id_player (player_objs ex_in_room ! 0) = ''s1''"
    "find_player ex_in_room ''s1'' = Some 0" "players (room_objs ex_in_room ! 0) = [0]"
    by (simp_all add: ex_in_room_def handler_defs)
  have e: "disconnectPlayer ex_in_room ''s1'' = (ex_gone, [])"
    by (simp add: ex_gone_def ex_in_room_def handler_defs)
  note t = disconnectPlayer_keeps_registry_marks_DNF [OF ex_in_room_reachable, of "''s1''"]
  from t h e have "find_player ex_gone ''s1'' = Some 0" by simp
  moreover from t h e have "players (room_objs ex_gone ! 0) = [0]" by simp
  moreover from t h e have "isDNF (player_objs ex_gone ! 0)" by simp
  ultimately show ?thesis using ex_in_room_reachable h e by simp
qed

subsection \<open>C3: a second initialize\<close>

text \<open>
  C3 says that an initialize event for a connection id that already has a Player leaves
  the registry alone and emits an invalid-join notification to the caller. The handler
  emits nothing there: a second initialize of \<open>s1\<close> produces no notification at all.
\<close>

theorem initializePlayer_duplicate_silent:
  "find_player ex_registered ''s1'' = Some 0 \<and>
   snd (initializePlayer ex_registered ''s1'' ''bob'') = []"
  by (simp add: ex_registered_def handler_defs)

text \<open>
  C3 as amended: an initialize event for a connection id that already has a Player in the
  registry changes nothing in the state and emits nothing.
\<close>

theorem initializePlayer_duplicate_noop:
  "\<exists>p \<in> set (deps_players st). id_player (player_objs st ! p) = sid \<Longrightarrow>
     initializePlayer st sid name = (st, [])"
  by (simp add: initializePlayer_def)

theorem initializePlayer_duplicate_noop_witness:
  "(\<exists>p \<in> set (deps_players ex_registered). id_player (player_objs ex_registered ! p) = ''s1'') \<and>
   initializePlayer ex_registered ''s1'' ''bob'' = (ex_registered, [])"
proof -
  have h: "\<exists>p \<in> set (deps_players ex_registered).
      id_player (player_objs ex_registered ! p) = ''s1''"
    by (simp add: ex_registered_def handler_defs)
  from h initializePlayer_duplicate_noop [OF h] show ?thesis by simp
qed

subsection \<open>C4: a player is in at most one room\<close>



subsection \<open>C5: the origin guard of completed_solve\<close>

text \<open>
  C5: for a completed_solve event the room is looked up by the delivering connection's
  own membership, and \<^verbatim>\<open>Room.playerSolveComplete\<close> is called only when the claimed id
  is the delivering connection's id; when the two differ the state is unchanged and
  nothing is emitted. (Without a room for the delivering connection nothing happens
  either.)
\<close>

theorem handleSolveComplete_origin_guard:
  "(socketID \<noteq> sid \<longrightarrow> handleSolveComplete st sid socketID t = (st, [])) \<and>
   (find_room_of st sid = None \<longrightarrow> handleSolveComplete st sid socketID t = (st, [])) \<and>
   (\<forall>room. find_room_of st sid = Some room \<longrightarrow>
      handleSolveComplete st sid sid t = playerSolveComplete st room sid t)"
  by (auto simp: handleSolveComplete_def split: option.splits)

theorem handleSolveComplete_origin_guard_witness:
  "''s2'' \<noteq> ''s1'' \<and> handleSolveComplete ex_in_room ''s1'' ''s2'' 7 = (ex_in_room, []) \<and>
   find_room_of ex_in_room ''s9'' = None \<and>
   handleSolveComplete ex_in_room ''s9'' ''s9'' 7 = (ex_in_room, []) \<and>
   find_room_of ex_in_room ''s1'' = Some 0 \<and>
   handleSolveComplete ex_in_room ''s1'' ''s1'' 7 = playerSolveComplete ex_in_room 0 ''s1'' 7 \<and>
   solveTime (player_objs (fst (handleSolveComplete ex_in_room ''s1'' ''s1'' 7)) ! 0) = 7"
proof -
  have a: "find_room_of ex_in_room ''s9'' = None" and b: "find_room_of ex_in_room ''s1'' = Some 0"
    by (simp_all add: ex_in_room_def handler_defs)
  have c: "solveTime (player_objs (fst (playerSolveComplete ex_in_room 0 ''s1'' 7)) ! 0) = 7"
    by (simp add: ex_in_room_def handler_defs)
  from handleSolveComplete_origin_guard [of "''s2''" "''s1''" ex_in_room 7]
    handleSolveComplete_origin_guard [of "''s9''" "''s9''" ex_in_room 7]
    handleSolveComplete_origin_guard [of "''s1''" "''s1''" ex_in_room 7] a b c
  show ?thesis by simp
qed

subsection \<open>C6: resolving a room twice\<close>

text \<open>
  C6: the find-joinable-else-create step, run twice with no join in between, returns the
  same room both times: the second run finds the room that the first one found or
  created, and creates none. The first run returns when a joinable room exists or the
  generator yields an unused id; rooms are taken to have capacity at least 1.
\<close>

theorem ensureJoinableRoom_idempotent:
  assumes "reachable cap st" and "1 \<le> cap"
    and "find_joinable st \<noteq> None \<or>
     (\<exists>d \<in> set (draws st). \<forall>r \<in> set (deps_rooms st). roomID (room_objs st ! r) \<noteq> d)"
  shows "\<exists>st1 room. ensureJoinableRoom cap st = Some (st1, room) \<and>
     ensureJoinableRoom cap st1 = Some (st1\<lparr>deps_rooms := deps_rooms st1 @ [room]\<rparr>, room)"
proof -
  from assms(1) have ok: "refs_ok st" by (simp add: reachable_inv [unfolded state_inv_def])
  from ensureJoinableRoom_returns [OF assms(3)] obtain st1 room where
    e: "ensureJoinableRoom cap st = Some (st1, room)" by blast
  from ensureJoinableRoom_again [OF ok assms(2) e] e show ?thesis by simp
qed

theorem ensureJoinableRoom_idempotent_witness:
  "reachable 2 ex_registered \<and> (1::int) \<le> 2 \<and>
   ''a1b2c'' \<in> set (draws ex_registered) \<and> deps_rooms ex_registered = [] \<and>
   (\<exists>st1. ensureJoinableRoom 2 ex_registered = Some (st1, 0) \<and>
      room_objs st1 = [new_Room 2 ''a1b2c''] \<and>
      ensureJoinableRoom 2 st1 = Some (st1\<lparr>deps_rooms := [0, 0]\<rparr>, 0))"
proof -
  note r = ex_registered_reachable
  have d: "\<exists>d \<in> set (draws ex_registered).
      \<forall>r \<in> set (deps_rooms ex_registered). roomID (room_objs ex_registered ! r) \<noteq> d"
    and d': "''a1b2c'' \<in> set (draws ex_registered)" "deps_rooms ex_registered = []"
    by (auto simp: ex_registered_def handler_defs)
  from ensureJoinableRoom_idempotent [OF r _ disjI2, OF _ d] obtain st1 room where
    a: "ensureJoinableRoom 2 ex_registered = Some (st1, room)"
    and b: "ensureJoinableRoom 2 st1 = Some (st1\<lparr>deps_rooms := deps_rooms st1 @ [room]\<rparr>, room)"
    by auto
  have "room = 0 \<and> deps_rooms st1 = [0] \<and> room_objs st1 = [new_Room 2 ''a1b2c'']"
    using a by (auto simp: ex_registered_def handler_defs)
  with a b r d' show ?thesis by auto
qed

subsection \<open>C7: join_rematch\<close>

text \<open>
  C7 says that on consensus a fresh joinable room is resolved or created and its id is
  sent on the old room's channel, not the new room's. The handler takes the first joinable
  room of the directory without excluding the room the rematch comes from. When \<open>s1\<close>,
  alone in the not yet started room \<open>a1b2c\<close> of capacity 2, asks for a rematch, consensus
  is reached at once, the room resolved is \<open>a1b2c\<close> itself, no Room object is created, and
  the occupants of \<open>a1b2c\<close> are told on the channel \<open>a1b2c\<close> to go to \<open>a1b2c\<close>.
\<close>

theorem join_rematch_resolves_old_room:
  "run 2 (init_state [''a1b2c'', ''0f3e9'']) ex_trace = Some ex_in_room \<and>
   joinRematchRoom 2 ex_in_room ''s1'' =
     Some (ex_in_room\<lparr>room_objs := [(new_Room 2 ''a1b2c'')\<lparr>players := [0],
                                      rematchAccepted := [''s1'']\<rparr>],
                       deps_rooms := [0, 0]\<rparr>,
           [Io_to ''a1b2c'' (Room_found ''a1b2c'')])"
  by (simp add: ex_trace_def ex_in_room_def handler_defs2)

subsection \<open>C8: join_random is discovery only\<close>

text \<open>
  C8: for a join_random event from a connection with a Player, the handler emits the id
  of the chosen room on the caller's own channel and nothing else. The chosen room is the
  one the room-resolution step returns: the first joinable room of the directory when
  there is one, and otherwise a new room under the first generated id that no directory
  entry carries. The handler leaves every Player object, every existing room (so every
  occupant list), the registry and the channel membership unchanged; a room it creates is
  empty.
\<close>

theorem joinRandomRoom_discovery_only:
  assumes "reachable cap st" and "find_player st sid = Some player"
    and "find_joinable st \<noteq> None \<or>
     (\<exists>d \<in> set (draws st). \<forall>r \<in> set (deps_rooms st). roomID (room_objs st ! r) \<noteq> d)"
  shows "\<exists>st' room.
     joinRandomRoom cap st sid = Some (st', [Io_to sid (Room_found (roomID (room_objs st' ! room)))]) \<and>
     ensureJoinableRoom cap st = Some (st', room) \<and>
     (\<forall>r. find_joinable st = Some r \<longrightarrow> room = r \<and> room_objs st' = room_objs st) \<and>
     (find_joinable st = None \<longrightarrow>
        room = length (room_objs st) \<and>
        (\<exists>ds. genFreshID (map (\<lambda>r. roomID (room_objs st ! r)) (deps_rooms st)) (draws st)
                = Some (roomID (room_objs st' ! room), ds)) \<and>
        (\<forall>r \<in> set (deps_rooms st). roomID (room_objs st ! r) \<noteq> roomID (room_objs st' ! room))) \<and>
     room \<in> set (deps_rooms st') \<and>
     player_objs st' = player_objs st \<and> deps_players st' = deps_players st \<and>
     channels st' = channels st \<and>
     (\<forall>r \<in> set (deps_rooms st). room_objs st' ! r = room_objs st ! r) \<and>
     (\<forall>r \<in> set (deps_rooms st'). r \<notin> set (deps_rooms st) \<longrightarrow> players (room_objs st' ! r) = [])"
proof -
  from assms(1) have ok: "refs_ok st" by (simp add: reachable_inv [unfolded state_inv_def])
  from ensureJoinableRoom_returns [OF assms(3)] obtain st' room where
    e: "ensureJoinableRoom cap st = Some (st', room)" by blast
  from assms(2) e have j:
    "joinRandomRoom cap st sid = Some (st', [Io_to sid (Room_found (roomID (room_objs st' ! room)))])"
    by (simp add: joinRandomRoom_def)
  note c = ensureJoinableRoom_choice [OF e]
  note f = ensureJoinableRoom_frame [OF ok e]
  have old: "\<forall>r \<in> set (deps_rooms st). room_objs st' ! r = room_objs st ! r"
    using f(6) by blast
  have new: "\<forall>r \<in> set (deps_rooms st'). r \<notin> set (deps_rooms st) \<longrightarrow>
      players (room_objs st' ! r) = []"
    using f(7) by blast
  show ?thesis
    apply (rule exI [of _ st'])
    apply (rule exI [of _ room])
    apply (intro conjI)
             apply (rule j)
            apply (rule e)
           apply (rule c(1))
          apply (rule c(2))
         apply (rule f(1))
        apply (rule f(2))
       apply (rule f(3))
      apply (rule f(4))
     apply (rule old)
    apply (rule new)
    done
qed

theorem joinRandomRoom_discovery_only_witness:
  "reachable 2 ex_in_room \<and> find_player ex_in_room ''s1'' = Some 0 \<and>
   find_joinable ex_in_room \<noteq> None \<and>
   (\<exists>st'. joinRandomRoom 2 ex_in_room ''s1'' = Some (st', [Io_to ''s1'' (Room_found ''a1b2c'')]) \<and>
      player_objs st' = player_objs ex_in_room \<and>
      room_objs st' ! 0 = room_objs ex_in_room ! 0) \<and>
   reachable 2 ex_race \<and> find_player ex_race ''s1'' = Some 0 \<and>
   find_joinable ex_race = None \<and> ''0f3e9'' \<in> set (draws ex_race) \<and>
   (\<exists>st'. joinRandomRoom 2 ex_race ''s1'' = Some (st', [Io_to ''s1'' (Room_found ''0f3e9'')]) \<and>
      ensureJoinableRoom 2 ex_race = Some (st', 1) \<and>
      player_objs st' = player_objs ex_race \<and>
      room_objs st' ! 0 = room_objs ex_race ! 0 \<and>
      players (room_objs st' ! 1) = [])"
proof -
  have p: "find_player ex_in_room ''s1'' = Some 0" and j: "find_joinable ex_in_room \<noteq> None"
    and m: "0 \<in> set (deps_rooms ex_in_room)"
    by (simp_all add: ex_in_room_def handler_defs)
  have ev: "joinRandomRoom 2 ex_in_room ''s1'' =
      Some (ex_in_room\<lparr>deps_rooms := [0, 0]\<rparr>, [Io_to ''s1'' (Room_found ''a1b2c'')])"
    by (simp add: ex_in_room_def handler_defs)
  from joinRandomRoom_discovery_only [OF ex_in_room_reachable p disjI1, OF j]
  obtain st' room where
    a: "joinRandomRoom 2 ex_in_room ''s1'' =
          Some (st', [Io_to ''s1'' (Room_found (roomID (room_objs st' ! room)))])"
    and b: "player_objs st' = player_objs ex_in_room"
    and c: "\<forall>r \<in> set (deps_rooms ex_in_room). room_objs st' ! r = room_objs ex_in_room ! r"
    by (elim exE conjE) (rule that, assumption+)
  from c m have c': "room_objs st' ! 0 = room_objs ex_in_room ! 0" by (rule bspec)
  from a ev have "joinRandomRoom 2 ex_in_room ''s1'' =
      Some (st', [Io_to ''s1'' (Room_found ''a1b2c'')])" by simp
  with b c' have A: "\<exists>st'. joinRandomRoom 2 ex_in_room ''s1'' =
        Some (st', [Io_to ''s1'' (Room_found ''a1b2c'')]) \<and>
      player_objs st' = player_objs ex_in_room \<and>
      room_objs st' ! 0 = room_objs ex_in_room ! 0"
    by (intro exI [of _ st'] conjI)
  have p2: "find_player ex_race ''s1'' = Some 0" and n2: "find_joinable ex_race = None"
    and d2: "''0f3e9'' \<in> set (draws ex_race)"
    and m2: "0 \<in> set (deps_rooms ex_race)" "1 \<notin> set (deps_rooms ex_race)"
    by (simp_all add: ex_race_def handler_defs)
  have d2': "\<exists>d \<in> set (draws ex_race).
      \<forall>r \<in> set (deps_rooms ex_race). roomID (room_objs ex_race ! r) \<noteq> d"
    by (auto simp: ex_race_def handler_defs)
  from joinRandomRoom_discovery_only [OF ex_race_reachable p2 disjI2, OF d2']
  obtain st2 room2 where
    a2: "joinRandomRoom 2 ex_race ''s1'' =
          Some (st2, [Io_to ''s1'' (Room_found (roomID (room_objs st2 ! room2)))])"
    and e2: "ensureJoinableRoom 2 ex_race = Some (st2, room2)"
    and r2: "room2 \<in> set (deps_rooms st2)"
    and b2: "player_objs st2 = player_objs ex_race"
    and c2: "\<forall>r \<in> set (deps_rooms ex_race). room_objs st2 ! r = room_objs ex_race ! r"
    and f2: "\<forall>r \<in> set (deps_rooms st2). r \<notin> set (deps_rooms ex_race) \<longrightarrow>
          players (room_objs st2 ! r) = []"
    by (elim exE conjE) (rule that, assumption+)
  have v2: "room2 = 1" "roomID (room_objs st2 ! room2) = ''0f3e9''"
    using e2 by (auto simp: ex_race_def handler_defs)
  from c2 m2(1) have c2': "room_objs st2 ! 0 = room_objs ex_race ! 0" by (rule bspec)
  from f2 r2 m2(2) v2(1) have f2': "players (room_objs st2 ! 1) = []" by simp
  from a2 v2 have a2': "joinRandomRoom 2 ex_race ''s1'' =
        Some (st2, [Io_to ''s1'' (Room_found ''0f3e9'')])" by simp
  from e2 v2 have e2': "ensureJoinableRoom 2 ex_race = Some (st2, 1)" by simp
  from a2' e2' b2 c2' f2' have B: "\<exists>st'. joinRandomRoom 2 ex_race ''s1'' =
        Some (st', [Io_to ''s1'' (Room_found ''0f3e9'')]) \<and>
      ensureJoinableRoom 2 ex_race = Some (st', 1) \<and>
      player_objs st' = player_objs ex_race \<and>
      room_objs st' ! 0 = room_objs ex_race ! 0 \<and>
      players (room_objs st' ! 1) = []"
    by (intro exI [of _ st2] conjI)
  from A B ex_in_room_reachable ex_race_reachable p j p2 n2 d2 show ?thesis
    by (intro conjI)
qed

subsection \<open>C9: failed preconditions\<close>

text \<open>
  C9 says that every PlayerNotFound, RoomNotFound, DuplicateInitialize and OriginMismatch
  condition is answered with a rejection notification to the offending connection. An
  origin mismatch is not: \<open>s1\<close>, an occupant of a room, sends completed_solve with the id
  \<open>s2\<close>, and nothing is emitted.
\<close>

theorem origin_mismatch_emits_nothing:
  "find_room_of ex_in_room ''s1'' = Some 0 \<and>
   snd (handleSolveComplete ex_in_room ''s1'' ''s2'' 7) = []"
  by (simp add: ex_in_room_def handler_defs)

text \<open>
  C9 as amended: a missing Player in join_random, join_rematch, joined and disconnect, and
  a missing room in join_rematch, joined and input, make the handler emit invalid-join on
  the delivering connection's channel and stop with the state unchanged; a missing room
  in completed_solve and disconnect, a duplicate initialize and an origin mismatch make
  the handler stop with the state unchanged and nothing emitted.
\<close>

theorem precondition_failures:
  "(find_player st sid = None \<longrightarrow>
      joinRandomRoom cap st sid = Some (st, [Io_to sid Join_invalid]) \<and>
      joinRematchRoom cap st sid = Some (st, [Io_to sid Join_invalid]) \<and>
      roomJoined st sid rid = (st, [Io_to sid Join_invalid]) \<and>
      disconnectPlayer st sid = (st, [Io_to sid Join_invalid])) \<and>
   (find_room_of st sid = None \<longrightarrow>
      joinRematchRoom cap st sid = Some (st, [Io_to sid Join_invalid])) \<and>
   (find_room_by_id st rid = None \<longrightarrow>
      roomJoined st sid rid = (st, [Io_to sid Join_invalid])) \<and>
   (find_room_of st senderID = None \<longrightarrow>
      handleKeyboardInput st sid senderID key = (st, [Io_to sid Join_invalid])) \<and>
   (find_room_of st sid = None \<longrightarrow>
      handleSolveComplete st sid socketID t = (st, []) \<and>
      (find_player st sid \<noteq> None \<longrightarrow> disconnectPlayer st sid = (st, []))) \<and>
   (find_player st sid \<noteq> None \<longrightarrow> initializePlayer st sid name = (st, [])) \<and>
   (socketID \<noteq> sid \<longrightarrow> handleSolveComplete st sid socketID t = (st, []))"
  by (auto simp: joinRandomRoom_def joinRematchRoom_def roomJoined_def disconnectPlayer_def
        handleKeyboardInput_def handleSolveComplete_def initializePlayer_def
        find_player_registered [symmetric]
        split: option.splits)

theorem precondition_failures_witness:
  "find_player ex_registered ''s9'' = None \<and>
   joinRandomRoom 2 ex_registered ''s9'' = Some (ex_registered, [Io_to ''s9'' Join_invalid]) \<and>
   roomJoined ex_registered ''s9'' ''zzzzz'' = (ex_registered, [Io_to ''s9'' Join_invalid]) \<and>
   disconnectPlayer ex_registered ''s9'' = (ex_registered, [Io_to ''s9'' Join_invalid]) \<and>
   find_room_of ex_registered ''s1'' = None \<and>
   joinRematchRoom 2 ex_registered ''s1'' = Some (ex_registered, [Io_to ''s1'' Join_invalid]) \<and>
   find_room_by_id ex_registered ''zzzzz'' = None \<and>
   roomJoined ex_registered ''s1'' ''zzzzz'' = (ex_registered, [Io_to ''s1'' Join_invalid]) \<and>
   handleKeyboardInput ex_registered ''s1'' ''s1'' ''U'' = (ex_registered, [Io_to ''s1'' Join_invalid]) \<and>
   handleSolveComplete ex_registered ''s1'' ''s1'' 7 = (ex_registered, []) \<and>
   find_player ex_registered ''s1'' \<noteq> None \<and>
   disconnectPlayer ex_registered ''s1'' = (ex_registered, []) \<and>
   initializePlayer ex_registered ''s1'' ''bob'' = (ex_registered, []) \<and>
   ''s2'' \<noteq> ''s1'' \<and>
   handleSolveComplete ex_in_room ''s1'' ''s2'' 7 = (ex_in_room, [])"
proof -
  have h: "find_player ex_registered ''s9'' = None" "find_room_of ex_registered ''s1'' = None"
    "find_room_by_id ex_registered ''zzzzz'' = None" "find_player ex_registered ''s1'' \<noteq> None"
    by (simp_all add: ex_registered_def handler_defs)
  note a = precondition_failures [of ex_registered "''s9''" 2 "''zzzzz''" "''s9''" "''U''" "''s9''" 7 "''bob''"]
  note b = precondition_failures [of ex_registered "''s1''" 2 "''zzzzz''" "''s1''" "''U''" "''s1''" 7 "''bob''"]
  note c = precondition_failures [of ex_in_room "''s1''" 2 "''zzzzz''" "''s1''" "''U''" "''s2''" 7 "''bob''"]
  from a h have A: "joinRandomRoom 2 ex_registered ''s9'' = Some (ex_registered, [Io_to ''s9'' Join_invalid])"
    "roomJoined ex_registered ''s9'' ''zzzzz'' = (ex_registered, [Io_to ''s9'' Join_invalid])"
    "disconnectPlayer ex_registered ''s9'' = (ex_registered, [Io_to ''s9'' Join_invalid])"
    by simp_all
  from b h have B: "joinRematchRoom 2 ex_registered ''s1'' = Some (ex_registered, [Io_to ''s1'' Join_invalid])"
    "roomJoined ex_registered ''s1'' ''zzzzz'' = (ex_registered, [Io_to ''s1'' Join_invalid])"
    "handleKeyboardInput ex_registered ''s1'' ''s1'' ''U'' = (ex_registered, [Io_to ''s1'' Join_invalid])"
    "handleSolveComplete ex_registered ''s1'' ''s1'' 7 = (ex_registered, [])"
    "disconnectPlayer ex_registered ''s1'' = (ex_registered, [])"
    "initializePlayer ex_registered ''s1'' ''bob'' = (ex_registered, [])"
    by simp_all
  from c have C: "handleSolveComplete ex_in_room ''s1'' ''s2'' 7 = (ex_in_room, [])"
    by simp
  from A B C h show ?thesis by simp
qed

subsection \<open>C10: confirming the room one is already in\<close>



end
